theory Spec2Isabelle
  imports Complex_Main "HOL-Library.AList"
begin

section \<open>Petri net core of petrinetsimple.py and tp101.py\<close>

text \<open>
  Python dictionaries keep insertion order and assigning to an existing key keeps the
  key's position; they are association lists here, written with \<open>AList.update\<close> and
  read with \<open>map_of\<close>. Python integers are \<open>int\<close>. A failing dictionary lookup
  \<^verbatim>\<open>d[k]\<close> raises \<^verbatim>\<open>KeyError\<close>; the analyzer raises \<^verbatim>\<open>ValueError\<close>.
\<close>

datatype error = KeyError string | ValueError string

text \<open>class Place: fields \<^verbatim>\<open>name\<close> and \<^verbatim>\<open>tokens\<close>.\<close>

record place =
  name :: string
  tokens :: int

definition Place :: "string \<Rightarrow> int \<Rightarrow> place" where
  "Place nm tk = \<lparr>name = nm, tokens = tk\<rparr>"

text \<open>class Transition: its name and the two dictionaries place name to weight.\<close>

record transition =
  t_name :: string
  input_arcs :: "(string \<times> int) list"
  output_arcs :: "(string \<times> int) list"

definition Transition :: "string \<Rightarrow> transition" where
  "Transition nm = \<lparr>t_name = nm, input_arcs = [], output_arcs = []\<rparr>"

definition add_input_arc :: "transition \<Rightarrow> place \<Rightarrow> int \<Rightarrow> transition" where
  "add_input_arc t p weight = t\<lparr>input_arcs := AList.update (name p) weight (input_arcs t)\<rparr>"

definition add_output_arc :: "transition \<Rightarrow> place \<Rightarrow> int \<Rightarrow> transition" where
  "add_output_arc t p weight = t\<lparr>output_arcs := AList.update (name p) weight (output_arcs t)\<rparr>"

text \<open>
  \<^verbatim>\<open>all(places[name].tokens >= weight for name, weight in self.input_arcs.items())\<close>:
  the items are visited in dictionary order, \<^verbatim>\<open>all\<close> stops at the first false
  comparison, and a name missing from \<^verbatim>\<open>places\<close> raises \<^verbatim>\<open>KeyError\<close> when it is
  reached.
\<close>

fun all_tokens_ge :: "(string \<times> place) list \<Rightarrow> (string \<times> int) list \<Rightarrow> error + bool" where
  "all_tokens_ge ps [] = Inr True"
| "all_tokens_ge ps ((nm, weight) # rest) =
     (case map_of ps nm of
        None \<Rightarrow> Inl (KeyError nm)
      | Some p \<Rightarrow> if tokens p \<ge> weight then all_tokens_ge ps rest else Inr False)"

definition is_enabled :: "transition \<Rightarrow> (string \<times> place) list \<Rightarrow> error + bool" where
  "is_enabled t ps = all_tokens_ge ps (input_arcs t)"

text \<open>
  class PetriNet. The dictionary \<^verbatim>\<open>pos\<close> maps every node name to a random layout
  position (\<^verbatim>\<open>np.random.rand(2) * 2 - 1\<close>); only its keys are kept.
\<close>

record petri_net =
  places :: "(string \<times> place) list"
  transitions :: "(string \<times> transition) list"
  arcs :: "(string \<times> string \<times> int) list"
  pos :: "string list"

definition PetriNet :: petri_net where
  "PetriNet = \<lparr>places = [], transitions = [], arcs = [], pos = []\<rparr>"

definition set_pos :: "string \<Rightarrow> string list \<Rightarrow> string list" where
  "set_pos nm ks = (if nm \<in> set ks then ks else ks @ [nm])"

definition add_place :: "petri_net \<Rightarrow> string \<Rightarrow> int \<Rightarrow> petri_net" where
  "add_place net nm tk =
     net\<lparr>places := AList.update nm (Place nm tk) (places net),
         pos := set_pos nm (pos net)\<rparr>"

definition add_transition :: "petri_net \<Rightarrow> string \<Rightarrow> petri_net" where
  "add_transition net nm =
     net\<lparr>transitions := AList.update nm (Transition nm) (transitions net),
         pos := set_pos nm (pos net)\<rparr>"

text \<open>
  \<^verbatim>\<open>add_arc\<close> appends the arc first, then tests
  \<^verbatim>\<open>source in self.places and target in self.transitions\<close>, and otherwise
  \<^verbatim>\<open>source in self.transitions and target in self.places\<close>. The membership tests and
  the lookups that follow them are the \<open>case\<close> on \<open>map_of\<close>; the transition object is
  updated in place, so it keeps its position in the dictionary.
\<close>

definition add_arc :: "petri_net \<Rightarrow> string \<Rightarrow> string \<Rightarrow> int \<Rightarrow> petri_net" where
  "add_arc net source target weight =
     (let net1 = net\<lparr>arcs := arcs net @ [(source, target, weight)]\<rparr> in
      case (map_of (places net1) source, map_of (transitions net1) target) of
        (Some p, Some t) \<Rightarrow>
          net1\<lparr>transitions := AList.update target (add_input_arc t p weight) (transitions net1)\<rparr>
      | _ \<Rightarrow>
         (case (map_of (transitions net1) source, map_of (places net1) target) of
            (Some t, Some p) \<Rightarrow>
              net1\<lparr>transitions := AList.update source (add_output_arc t p weight) (transitions net1)\<rparr>
          | _ \<Rightarrow> net1))"

definition is_bounded :: "petri_net \<Rightarrow> bool" where
  "is_bounded net = list_all (\<lambda>p. tokens p \<ge> 0) (map snd (places net))"

text \<open>
  \<^verbatim>\<open>any(t.is_enabled(self.places) for t in self.transitions.values())\<close> stops at the
  first enabled transition; an exception of \<^verbatim>\<open>is_enabled\<close> leaves \<^verbatim>\<open>any\<close>.
\<close>

fun any_enabled :: "(string \<times> place) list \<Rightarrow> transition list \<Rightarrow> error + bool" where
  "any_enabled ps [] = Inr False"
| "any_enabled ps (t # ts) =
     (case is_enabled t ps of
        Inl e \<Rightarrow> Inl e
      | Inr b \<Rightarrow> if b then Inr True else any_enabled ps ts)"

definition has_live_transitions :: "petri_net \<Rightarrow> error + bool" where
  "has_live_transitions net = any_enabled (places net) (map snd (transitions net))"

subsection \<open>Sequences of construction calls\<close>

datatype command =
    AddPlace string int
  | AddTransition string
  | AddArc string string int

fun exec :: "command \<Rightarrow> petri_net \<Rightarrow> petri_net" where
  "exec (AddPlace nm tk) net = add_place net nm tk"
| "exec (AddTransition nm) net = add_transition net nm"
| "exec (AddArc source target weight) net = add_arc net source target weight"

definition run :: "command list \<Rightarrow> petri_net \<Rightarrow> petri_net" where
  "run cmds net = fold exec cmds net"

definition build :: "command list \<Rightarrow> petri_net" where
  "build cmds = run cmds PetriNet"

definition place_names :: "petri_net \<Rightarrow> string set" where
  "place_names net = fst ` set (places net)"

definition transition_names :: "petri_net \<Rightarrow> string set" where
  "transition_names net = fst ` set (transitions net)"


subsection \<open>The classes of tp101.py\<close>

text \<open>
  tp101.py declares the classes \<^verbatim>\<open>Place\<close>, \<^verbatim>\<open>Transition\<close> and \<^verbatim>\<open>PetriNet\<close> again, with
  the same fields; the records above stand for the objects of both files, and the
  methods of tp101.py are translated here from its own text.
\<close>

definition tp101_Place :: "string \<Rightarrow> int \<Rightarrow> place" where
  "tp101_Place nm tk = \<lparr>name = nm, tokens = tk\<rparr>"

definition tp101_Transition :: "string \<Rightarrow> transition" where
  "tp101_Transition nm = \<lparr>t_name = nm, input_arcs = [], output_arcs = []\<rparr>"

definition tp101_add_input_arc :: "transition \<Rightarrow> place \<Rightarrow> int \<Rightarrow> transition" where
  "tp101_add_input_arc t p weight =
     t\<lparr>input_arcs := AList.update (name p) weight (input_arcs t)\<rparr>"

definition tp101_add_output_arc :: "transition \<Rightarrow> place \<Rightarrow> int \<Rightarrow> transition" where
  "tp101_add_output_arc t p weight =
     t\<lparr>output_arcs := AList.update (name p) weight (output_arcs t)\<rparr>"

fun tp101_all_tokens_ge ::
  "(string \<times> place) list \<Rightarrow> (string \<times> int) list \<Rightarrow> error + bool" where
  "tp101_all_tokens_ge ps [] = Inr True"
| "tp101_all_tokens_ge ps ((nm, weight) # rest) =
     (case map_of ps nm of
        None \<Rightarrow> Inl (KeyError nm)
      | Some p \<Rightarrow> if tokens p \<ge> weight then tp101_all_tokens_ge ps rest else Inr False)"

definition tp101_is_enabled :: "transition \<Rightarrow> (string \<times> place) list \<Rightarrow> error + bool" where
  "tp101_is_enabled t ps = tp101_all_tokens_ge ps (input_arcs t)"

definition tp101_PetriNet :: petri_net where
  "tp101_PetriNet = \<lparr>places = [], transitions = [], arcs = [], pos = []\<rparr>"

definition tp101_add_place :: "petri_net \<Rightarrow> string \<Rightarrow> int \<Rightarrow> petri_net" where
  "tp101_add_place net nm tk =
     net\<lparr>places := AList.update nm (tp101_Place nm tk) (places net),
         pos := set_pos nm (pos net)\<rparr>"

definition tp101_add_transition :: "petri_net \<Rightarrow> string \<Rightarrow> petri_net" where
  "tp101_add_transition net nm =
     net\<lparr>transitions := AList.update nm (tp101_Transition nm) (transitions net),
         pos := set_pos nm (pos net)\<rparr>"

definition tp101_add_arc :: "petri_net \<Rightarrow> string \<Rightarrow> string \<Rightarrow> int \<Rightarrow> petri_net" where
  "tp101_add_arc net source target weight =
     (let net1 = net\<lparr>arcs := arcs net @ [(source, target, weight)]\<rparr> in
      case (map_of (places net1) source, map_of (transitions net1) target) of
        (Some p, Some t) \<Rightarrow>
          net1\<lparr>transitions :=
                 AList.update target (tp101_add_input_arc t p weight) (transitions net1)\<rparr>
      | _ \<Rightarrow>
         (case (map_of (transitions net1) source, map_of (places net1) target) of
            (Some t, Some p) \<Rightarrow>
              net1\<lparr>transitions :=
                     AList.update source (tp101_add_output_arc t p weight) (transitions net1)\<rparr>
          | _ \<Rightarrow> net1))"

definition tp101_is_bounded :: "petri_net \<Rightarrow> bool" where
  "tp101_is_bounded net = list_all (\<lambda>p. tokens p \<ge> 0) (map snd (places net))"

fun tp101_any_enabled :: "(string \<times> place) list \<Rightarrow> transition list \<Rightarrow> error + bool" where
  "tp101_any_enabled ps [] = Inr False"
| "tp101_any_enabled ps (t # ts) =
     (case tp101_is_enabled t ps of
        Inl e \<Rightarrow> Inl e
      | Inr b \<Rightarrow> if b then Inr True else tp101_any_enabled ps ts)"

definition tp101_has_live_transitions :: "petri_net \<Rightarrow> error + bool" where
  "tp101_has_live_transitions net =
     tp101_any_enabled (places net) (map snd (transitions net))"

fun tp101_exec :: "command \<Rightarrow> petri_net \<Rightarrow> petri_net" where
  "tp101_exec (AddPlace nm tk) net = tp101_add_place net nm tk"
| "tp101_exec (AddTransition nm) net = tp101_add_transition net nm"
| "tp101_exec (AddArc source target weight) net = tp101_add_arc net source target weight"

definition tp101_build :: "command list \<Rightarrow> petri_net" where
  "tp101_build cmds = fold tp101_exec cmds tp101_PetriNet"

section \<open>The analyzer of tp1test.py\<close>

text \<open>
  \<^verbatim>\<open>str.strip()\<close> removes the white space at both ends. Characters are the code points
  below 256; Python's white space among them is 9 to 13, 28 to 32, 133 and 160.
\<close>

definition is_space :: "char \<Rightarrow> bool" where
  "is_space c = (of_char c \<in> {9, 10, 11, 12, 13, 28, 29, 30, 31, 32, 133, 160 :: nat})"

definition strip :: "string \<Rightarrow> string" where
  "strip s = rev (dropWhile is_space (rev (dropWhile is_space s)))"

text \<open>
  \<^verbatim>\<open>nx.DiGraph\<close>: the node dictionary (node to its attributes \<^verbatim>\<open>bipartite\<close> and
  \<^verbatim>\<open>node_type\<close>, absent for a node that only an edge created) and the edges, each
  pair once.
\<close>

record digraph =
  nodes :: "(string \<times> (int \<times> string) option) list"
  edges :: "(string \<times> string) list"

definition DiGraph :: digraph where
  "DiGraph = \<lparr>nodes = [], edges = []\<rparr>"

definition add_nodes_from :: "string list \<Rightarrow> int \<Rightarrow> string \<Rightarrow> digraph \<Rightarrow> digraph" where
  "add_nodes_from ns bipartite node_type g =
     fold (\<lambda>n g. g\<lparr>nodes := AList.update n (Some (bipartite, node_type)) (nodes g)\<rparr>) ns g"

definition touch_node :: "string \<Rightarrow> digraph \<Rightarrow> digraph" where
  "touch_node n g = (if n \<in> fst ` set (nodes g) then g else g\<lparr>nodes := nodes g @ [(n, None)]\<rparr>)"

definition add_edges_from :: "(string \<times> string) list \<Rightarrow> digraph \<Rightarrow> digraph" where
  "add_edges_from es g =
     fold (\<lambda>(u, v) g.
             let g1 = touch_node v (touch_node u g) in
             if (u, v) \<in> set (edges g1) then g1 else g1\<lparr>edges := edges g1 @ [(u, v)]\<rparr>) es g"

text \<open>
  class PetriNetAnalyzer. \<^verbatim>\<open>places\<close> and \<^verbatim>\<open>transitions\<close> are Python sets: each is the
  list of its elements, without repetition, in the order in which the set is iterated.
  The colours and the node size set by the constructor are left out.
\<close>

record analyzer =
  a_places :: "string list"
  a_transitions :: "string list"
  a_arcs :: "(string \<times> string) list"
  marking :: "(string \<times> int) list"
  graph :: digraph

definition PetriNetAnalyzer :: analyzer where
  "PetriNetAnalyzer =
     \<lparr>a_places = [], a_transitions = [], a_arcs = [], marking = [], graph = DiGraph\<rparr>"

text \<open>
  The order in which \<^verbatim>\<open>set(xs)\<close> is iterated depends on the hashes of the strings and
  is no function of the program text: it is the parameter \<open>set_of\<close>, of which only
  \<open>valid_set_order\<close> is known.
\<close>

definition valid_set_order :: "(string list \<Rightarrow> string list) \<Rightarrow> bool" where
  "valid_set_order set_of = (\<forall>xs. set (set_of xs) = set xs \<and> distinct (set_of xs))"

text \<open>
  \<^verbatim>\<open>{p.strip(): int(v) for p, v in marking.items()}\<close>. The values come from the caller
  (the form passes strings); Python's \<^verbatim>\<open>int\<close> on them is the parameter \<open>to_int\<close>,
  whose exception ends the comprehension.
\<close>

fun marking_items ::
  "('v \<Rightarrow> error + int) \<Rightarrow> (string \<times> 'v) list \<Rightarrow> (string \<times> int) list
     \<Rightarrow> error + (string \<times> int) list" where
  "marking_items to_int [] acc = Inr acc"
| "marking_items to_int ((p, v) # rest) acc =
     (case to_int v of
        Inl e \<Rightarrow> Inl e
      | Inr n \<Rightarrow> marking_items to_int rest (AList.update (strip p) n acc))"

fun validate_arcs :: "analyzer \<Rightarrow> (string \<times> string) list \<Rightarrow> error + unit" where
  "validate_arcs a [] = Inr ()"
| "validate_arcs a ((src, dest) # rest) =
     (if src \<notin> set (a_places a) \<and> src \<notin> set (a_transitions a)
      then Inl (ValueError (''Invalid source node in arc: '' @ src))
      else if dest \<notin> set (a_places a) \<and> dest \<notin> set (a_transitions a)
      then Inl (ValueError (''Invalid destination node in arc: '' @ dest))
      else validate_arcs a rest)"

fun validate_marking :: "analyzer \<Rightarrow> (string \<times> int) list \<Rightarrow> error + unit" where
  "validate_marking a [] = Inr ()"
| "validate_marking a ((p, v) # rest) =
     (if p \<notin> set (a_places a)
      then Inl (ValueError (''Marking specified for non-existent place: '' @ p))
      else validate_marking a rest)"

definition validate_network :: "analyzer \<Rightarrow> error + unit" where
  "validate_network a =
     (case validate_arcs a (a_arcs a) of
        Inl e \<Rightarrow> Inl e
      | Inr u \<Rightarrow> validate_marking a (marking a))"

definition build_graph :: "analyzer \<Rightarrow> analyzer" where
  "build_graph a =
     a\<lparr>graph :=
         add_edges_from (a_arcs a)
           (add_nodes_from (a_transitions a) 1 ''transition''
              (add_nodes_from (a_places a) 0 ''place'' DiGraph))\<rparr>"

text \<open>
  \<^verbatim>\<open>[(src.strip(), dest.strip()) for src, dest in arcs]\<close>. Each arc is the list that
  the caller made with \<^verbatim>\<open>split('->')\<close>; unpacking a list that has not two elements
  raises \<^verbatim>\<open>ValueError\<close> (the messages are those of the interpreter) and ends the
  comprehension.
\<close>

fun unpack_pair :: "string list \<Rightarrow> error + (string \<times> string)" where
  "unpack_pair [src, dest] = Inr (src, dest)"
| "unpack_pair [] = Inl (ValueError ''not enough values to unpack (expected 2, got 0)'')"
| "unpack_pair [x] = Inl (ValueError ''not enough values to unpack (expected 2, got 1)'')"
| "unpack_pair (x # y # z # rest) = Inl (ValueError ''too many values to unpack (expected 2)'')"

fun arc_items :: "string list list \<Rightarrow> (string \<times> string) list \<Rightarrow> error + (string \<times> string) list" where
  "arc_items [] acc = Inr acc"
| "arc_items (arc # rest) acc =
     (case unpack_pair arc of
        Inl e \<Rightarrow> Inl e
      | Inr (src, dest) \<Rightarrow> arc_items rest (acc @ [(strip src, strip dest)]))"

text \<open>
  \<^verbatim>\<open>load_network\<close> assigns the four fields one after the other, then validates, then
  builds the graph. It returns the outcome of the call and the analyzer as the call
  leaves it, also when the call raises: an exception in a comprehension leaves the field
  it was computed for, and those after it, as they were.
\<close>

definition load_network ::
  "(string list \<Rightarrow> string list) \<Rightarrow> ('v \<Rightarrow> error + int) \<Rightarrow> analyzer
     \<Rightarrow> string list \<Rightarrow> string list \<Rightarrow> string list list \<Rightarrow> (string \<times> 'v) list
     \<Rightarrow> (error + unit) \<times> analyzer" where
  "load_network set_of to_int a ps ts as m =
     (let a1 = a\<lparr>a_places := set_of ps\<rparr>;
          a2 = a1\<lparr>a_transitions := set_of ts\<rparr>
      in case arc_items as [] of
           Inl e \<Rightarrow> (Inl e, a2)
         | Inr as' \<Rightarrow>
            (let a3 = a2\<lparr>a_arcs := as'\<rparr>
             in case marking_items to_int m [] of
                  Inl e \<Rightarrow> (Inl e, a3)
                | Inr m' \<Rightarrow>
                   (let a4 = a3\<lparr>marking := m'\<rparr>
                    in case validate_network a4 of
                         Inl e \<Rightarrow> (Inl e, a4)
                       | Inr u \<Rightarrow> (Inr (), build_graph a4))))"

definition analyze_boundedness :: "analyzer \<Rightarrow> bool" where
  "analyze_boundedness a = list_all (\<lambda>m. m \<ge> 0) (map snd (marking a))"

definition marking_get :: "analyzer \<Rightarrow> string \<Rightarrow> int \<Rightarrow> int" where
  "marking_get a p d = (case map_of (marking a) p of None \<Rightarrow> d | Some v \<Rightarrow> v)"

text \<open>
  The test of the loop of \<^verbatim>\<open>analyze_liveness\<close>, with the two set comprehensions
  \<^verbatim>\<open>inputs\<close> and \<^verbatim>\<open>outputs\<close>.
\<close>

definition structurally_live :: "analyzer \<Rightarrow> string \<Rightarrow> bool" where
  "structurally_live a t =
     (let inputs = set (map fst (filter (\<lambda>(src, dest). dest = t) (a_arcs a)));
          outputs = set (map snd (filter (\<lambda>(src, dest). src = t) (a_arcs a)))
      in inputs \<noteq> {} \<and> outputs \<noteq> {} \<and> (\<forall>p \<in> inputs. marking_get a p 0 > 0))"

fun count_live :: "analyzer \<Rightarrow> string list \<Rightarrow> nat \<Rightarrow> nat" where
  "count_live a [] live_count = live_count"
| "count_live a (t # ts) live_count =
     (if structurally_live a t then count_live a ts (live_count + 1)
      else count_live a ts live_count)"

text \<open>
  Python's \<^verbatim>\<open>/\<close> on two integers returns the double nearest to the exact quotient,
  ties going to the even significand. A double is an integer multiple of a power of two:
  for a quotient \<open>q\<close> between 0 and 1, \<open>binade q 0\<close> is the least \<open>j\<close> with
  \<open>1 \<le> q * 2 ^ j\<close>, at most 1022 (below that the doubles are subnormal), and the
  double is a multiple of \<open>1 / 2 ^ (j + 52)\<close>: 53 significant bits.
\<close>

definition round_half_even :: "real \<Rightarrow> int" where
  "round_half_even x =
     (let f = \<lfloor>x\<rfloor>; r = x - of_int f
      in if r < 1 / 2 then f
         else if 1 / 2 < r then f + 1
         else if even f then f else f + 1)"

function binade :: "real \<Rightarrow> nat \<Rightarrow> nat" where
  "binade q j = (if 1 \<le> q * 2 ^ j \<or> 1022 \<le> j then j else binade q (Suc j))"
  by pat_completeness auto
termination
  by (relation "measure (\<lambda>(q, j). 1022 - j)") auto

declare binade.simps [simp del]

definition nearest_double :: "real \<Rightarrow> real" where
  "nearest_double q =
     (let s = binade q 0 + 52
      in of_int (round_half_even (q * 2 ^ s)) / 2 ^ s)"

text \<open>
  \<^verbatim>\<open>k / n\<close> for integers with \<open>0 \<le> k \<le> n\<close> and \<open>0 < n\<close>, the only division the
  analyzer makes: its guard excludes \<open>n = 0\<close>, where Python raises.
\<close>

definition true_div :: "nat \<Rightarrow> nat \<Rightarrow> real" where
  "true_div k n = nearest_double (real k / real n)"

text \<open>
  \<^verbatim>\<open>live_count / len(self.transitions) if self.transitions else 0.0\<close>; the count is at
  most the length, so the quotient is between 0 and 1.
\<close>

definition analyze_liveness :: "analyzer \<Rightarrow> real" where
  "analyze_liveness a =
     (let live_count = count_live a (a_transitions a) 0
      in if a_transitions a \<noteq> []
         then true_div live_count (length (a_transitions a))
         else 0)"

text \<open>The test of the loop of \<^verbatim>\<open>get_enabled_transitions\<close>; \<^verbatim>\<open>inputs\<close> is a list.\<close>

definition enabled_test :: "analyzer \<Rightarrow> string \<Rightarrow> bool" where
  "enabled_test a t =
     (let inputs = map fst (filter (\<lambda>(src, dest). dest = t) (a_arcs a))
      in inputs \<noteq> [] \<and> list_all (\<lambda>p. marking_get a p 0 > 0) inputs)"

fun collect_enabled :: "analyzer \<Rightarrow> string list \<Rightarrow> string list \<Rightarrow> string list" where
  "collect_enabled a [] enabled = enabled"
| "collect_enabled a (t # ts) enabled =
     (if enabled_test a t then collect_enabled a ts (enabled @ [t])
      else collect_enabled a ts enabled)"

definition get_enabled_transitions :: "analyzer \<Rightarrow> string list" where
  "get_enabled_transitions a = collect_enabled a (a_transitions a) []"

section \<open>Invariants of the net and sample inputs\<close>

text \<open>
  Every place is stored under its own name, and every place name in an arc dictionary of
  a transition is a key of \<open>places\<close>.
\<close>

definition names_match :: "petri_net \<Rightarrow> bool" where
  "names_match net = list_all (\<lambda>(k, p). name p = k) (places net)"

definition arcs_closed :: "petri_net \<Rightarrow> bool" where
  "arcs_closed net =
     list_all (\<lambda>(n, t). list_all (\<lambda>(k, w). k \<in> fst ` set (places net))
                          (input_arcs t @ output_arcs t)) (transitions net)"

text \<open>The calls whose token count, where they have one, is not negative.\<close>

fun nonneg_tokens :: "command \<Rightarrow> bool" where
  "nonneg_tokens (AddPlace nm tk) = (tk \<ge> 0)"
| "nonneg_tokens (AddTransition nm) = True"
| "nonneg_tokens (AddArc source target weight) = True"

text \<open>
  The net with places \<open>p1\<close> (one token) and \<open>p2\<close> (none) and the transition \<open>t1\<close>
  between them.
\<close>

definition demo_cmds :: "command list" where
  "demo_cmds =
     [AddPlace ''p1'' 1, AddPlace ''p2'' 0, AddTransition ''t1'',
      AddArc ''p1'' ''t1'' 1, AddArc ''t1'' ''p2'' 1]"

definition demo_t1 :: transition where
  "demo_t1 = \<lparr>t_name = ''t1'', input_arcs = [(''p1'', 1)], output_arcs = [(''p2'', 1)]\<rparr>"

definition demo_net :: petri_net where
  "demo_net =
     \<lparr>places = [(''p1'', \<lparr>name = ''p1'', tokens = 1\<rparr>), (''p2'', \<lparr>name = ''p2'', tokens = 0\<rparr>)],
      transitions = [(''t1'', demo_t1)],
      arcs = [(''p1'', ''t1'', 1), (''t1'', ''p2'', 1)],
      pos = [''p1'', ''p2'', ''t1'']\<rparr>"

text \<open>A net in which the name \<open>x\<close> is a place and a transition.\<close>

definition clash_net :: petri_net where
  "clash_net = build [AddPlace ''x'' 0, AddTransition ''x'']"





definition scenario_loaded :: analyzer where
  "scenario_loaded =
     \<lparr>a_places = [''p1'', ''p2'', ''p3''], a_transitions = [''t1'', ''t2''],
      a_arcs = [(''p1'', ''t1''), (''t1'', ''p2''), (''p2'', ''t2'')],
      marking = [(''p1'', 1), (''p2'', 0), (''p3'', 2)],
      graph =
        \<lparr>nodes =
           [(''p1'', Some (0, ''place'')), (''p2'', Some (0, ''place'')),
            (''p3'', Some (0, ''place'')), (''t1'', Some (1, ''transition'')),
            (''t2'', Some (1, ''transition''))],
         edges = [(''p1'', ''t1''), (''t1'', ''p2''), (''p2'', ''t2'')]\<rparr>\<rparr>"

text \<open>
  A chain of three transitions between four places in which only \<open>p1\<close> holds a token:
  \<open>t1\<close> can fire, \<open>t2\<close> and \<open>t3\<close> have an empty input place.
\<close>

definition chain_places :: "string list" where
  "chain_places = [''p1'', ''p2'', ''p3'', ''p4'']"

definition chain_transitions :: "string list" where
  "chain_transitions = [''t1'', ''t2'', ''t3'']"

definition chain_arcs :: "string list list" where
  "chain_arcs =
     [[''p1'', ''t1''], [''t1'', ''p2''], [''p2'', ''t2''], [''t2'', ''p3''],
      [''p3'', ''t3''], [''t3'', ''p4'']]"

definition chain_marking :: "(string \<times> int) list" where
  "chain_marking = [(''p1'', 1), (''p2'', 0)]"

definition chain_loaded :: analyzer where
  "chain_loaded =
     snd (load_network remdups Inr PetriNetAnalyzer
            chain_places chain_transitions chain_arcs chain_marking)"




section \<open>Properties of the net classes\<close>

lemma set_update_subset: "set (AList.update k v al) \<subseteq> insert (k, v) (set al)"
  by (induction al) auto

lemma update_elem: "x \<in> set (AList.update k v al) \<Longrightarrow> x = (k, v) \<or> x \<in> set al"
  using set_update_subset by fastforce

lemma names_matchD:
  "names_match net \<Longrightarrow> (k, p) \<in> set (places net) \<Longrightarrow> name p = k"
  unfolding names_match_def list_all_iff by blast

lemma names_matchI:
  "(\<And>k p. (k, p) \<in> set (places net) \<Longrightarrow> name p = k) \<Longrightarrow> names_match net"
  unfolding names_match_def list_all_iff by blast

lemma arcs_closedD:
  "arcs_closed net \<Longrightarrow> (n, t) \<in> set (transitions net) \<Longrightarrow>
     (k, w) \<in> set (input_arcs t) \<union> set (output_arcs t) \<Longrightarrow> k \<in> fst ` set (places net)"
  unfolding arcs_closed_def list_all_iff set_append by blast

lemma arcs_closedI:
  "(\<And>n t k w. (n, t) \<in> set (transitions net) \<Longrightarrow>
       (k, w) \<in> set (input_arcs t) \<union> set (output_arcs t) \<Longrightarrow> k \<in> fst ` set (places net))
   \<Longrightarrow> arcs_closed net"
  unfolding arcs_closed_def list_all_iff set_append by blast

lemma names_match_add_place: "names_match net \<Longrightarrow> names_match (add_place net nm tk)"
proof (rule names_matchI)
  fix k p
  assume nm: "names_match net" and "(k, p) \<in> set (places (add_place net nm tk))"
  then have "(k, p) = (nm, Place nm tk) \<or> (k, p) \<in> set (places net)"
    using update_elem [of "(k, p)" nm "Place nm tk" "places net"] by (simp add: add_place_def)
  with nm show "name p = k" by (auto simp: Place_def dest: names_matchD)
qed

lemma names_match_add_transition: "names_match net \<Longrightarrow> names_match (add_transition net nm)"
  by (simp add: names_match_def add_transition_def)

lemma places_add_arc: "places (add_arc net s t w) = places net"
  by (simp add: add_arc_def Let_def split: option.splits)

lemma arcs_add_arc: "arcs (add_arc net s t w) = arcs net @ [(s, t, w)]"
  by (simp add: add_arc_def Let_def split: option.splits)

lemma pos_add_arc: "pos (add_arc net s t w) = pos net"
  by (simp add: add_arc_def Let_def split: option.splits)

lemma names_match_add_arc: "names_match net \<Longrightarrow> names_match (add_arc net s t w)"
  by (simp add: names_match_def places_add_arc)

lemma arcs_closed_add_place: "arcs_closed net \<Longrightarrow> arcs_closed (add_place net nm tk)"
proof (rule arcs_closedI)
  fix n t k w
  assume ac: "arcs_closed net" and "(n, t) \<in> set (transitions (add_place net nm tk))"
    and kw: "(k, w) \<in> set (input_arcs t) \<union> set (output_arcs t)"
  then have "(n, t) \<in> set (transitions net)" by (simp add: add_place_def)
  from arcs_closedD [OF ac this kw]
  show "k \<in> fst ` set (places (add_place net nm tk))"
    by (simp add: add_place_def AList.dom_update)
qed

lemma arcs_closed_add_transition: "arcs_closed net \<Longrightarrow> arcs_closed (add_transition net nm)"
proof (rule arcs_closedI)
  fix n t k w
  assume ac: "arcs_closed net" and "(n, t) \<in> set (transitions (add_transition net nm))"
    and kw: "(k, w) \<in> set (input_arcs t) \<union> set (output_arcs t)"
  then have "(n, t) = (nm, Transition nm) \<or> (n, t) \<in> set (transitions net)"
    using update_elem [of "(n, t)" nm "Transition nm" "transitions net"]
    by (simp add: add_transition_def)
  then show "k \<in> fst ` set (places (add_transition net nm))"
  proof
    assume "(n, t) = (nm, Transition nm)"
    with kw show ?thesis by (simp add: Transition_def)
  next
    assume "(n, t) \<in> set (transitions net)"
    from arcs_closedD [OF ac this kw] show ?thesis by (simp add: add_transition_def)
  qed
qed

lemma transitions_add_arc_cases:
  "transitions (add_arc net s t w) = transitions net
   \<or> (\<exists>p tr. map_of (places net) s = Some p \<and> map_of (transitions net) t = Some tr
        \<and> transitions (add_arc net s t w) =
            AList.update t (add_input_arc tr p w) (transitions net))
   \<or> (\<exists>p tr. map_of (places net) t = Some p \<and> map_of (transitions net) s = Some tr
        \<and> transitions (add_arc net s t w) =
            AList.update s (add_output_arc tr p w) (transitions net))"
  by (simp add: add_arc_def Let_def split: option.splits)

lemma arcs_closed_update:
  assumes ac: "arcs_closed net"
    and new: "\<And>k w. (k, w) \<in> set (input_arcs tr') \<union> set (output_arcs tr') \<Longrightarrow>
                 k \<in> fst ` set (places net)"
    and eq: "transitions net' = AList.update key tr' (transitions net)"
    and pl: "places net' = places net"
  shows "arcs_closed net'"
proof (rule arcs_closedI)
  fix n t k w
  assume "(n, t) \<in> set (transitions net')"
    and kw: "(k, w) \<in> set (input_arcs t) \<union> set (output_arcs t)"
  then have "(n, t) = (key, tr') \<or> (n, t) \<in> set (transitions net)"
    using update_elem [of "(n, t)" key tr' "transitions net"] by (simp add: eq)
  then show "k \<in> fst ` set (places net')"
  proof
    assume "(n, t) = (key, tr')"
    with kw new show ?thesis by (simp add: pl)
  next
    assume "(n, t) \<in> set (transitions net)"
    from arcs_closedD [OF ac this kw] show ?thesis by (simp add: pl)
  qed
qed

lemma arcs_closed_add_arc:
  assumes nm: "names_match net" and ac: "arcs_closed net"
  shows "arcs_closed (add_arc net s t w)"
proof -
  have key: "name p \<in> fst ` set (places net)" if "map_of (places net) k = Some p" for k p
  proof -
    from that have in_set: "(k, p) \<in> set (places net)" by (rule map_of_SomeD)
    with nm have "name p = k" by (rule names_matchD)
    with in_set show ?thesis by force
  qed
  have old: "k' \<in> fst ` set (places net)"
    if "map_of (transitions net) k = Some tr"
      and "(k', w') \<in> set (input_arcs tr) \<union> set (output_arcs tr)" for k tr k' w'
  proof -
    from that(1) have "(k, tr) \<in> set (transitions net)" by (rule map_of_SomeD)
    from arcs_closedD [OF ac this that(2)] show ?thesis .
  qed
  from transitions_add_arc_cases [of net s t w] show ?thesis
  proof (elim disjE exE conjE)
    assume "transitions (add_arc net s t w) = transitions net"
    with ac show ?thesis by (simp add: arcs_closed_def places_add_arc)
  next
    fix p tr
    assume p: "map_of (places net) s = Some p" and tr: "map_of (transitions net) t = Some tr"
      and eq: "transitions (add_arc net s t w) =
                 AList.update t (add_input_arc tr p w) (transitions net)"
    have new: "k \<in> fst ` set (places net)"
      if "(k, w') \<in> set (input_arcs (add_input_arc tr p w))
                    \<union> set (output_arcs (add_input_arc tr p w))" for k w'
      using that key [OF p] old [OF tr]
      by (auto simp: add_input_arc_def dest!: update_elem)
    from arcs_closed_update [OF ac new eq places_add_arc] show ?thesis .
  next
    fix p tr
    assume p: "map_of (places net) t = Some p" and tr: "map_of (transitions net) s = Some tr"
      and eq: "transitions (add_arc net s t w) =
                 AList.update s (add_output_arc tr p w) (transitions net)"
    have new: "k \<in> fst ` set (places net)"
      if "(k, w') \<in> set (input_arcs (add_output_arc tr p w))
                    \<union> set (output_arcs (add_output_arc tr p w))" for k w'
      using that key [OF p] old [OF tr]
      by (auto simp: add_output_arc_def dest!: update_elem)
    from arcs_closed_update [OF ac new eq places_add_arc] show ?thesis .
  qed
qed

lemma inv_exec:
  "names_match net \<and> arcs_closed net \<Longrightarrow> names_match (exec c net) \<and> arcs_closed (exec c net)"
  by (cases c)
     (simp_all add: names_match_add_place names_match_add_transition names_match_add_arc
        arcs_closed_add_place arcs_closed_add_transition arcs_closed_add_arc)

lemma inv_run:
  "names_match net \<and> arcs_closed net \<Longrightarrow>
     names_match (run cmds net) \<and> arcs_closed (run cmds net)"
proof (induction cmds arbitrary: net)
  case Nil
  then show ?case by (simp add: run_def)
next
  case (Cons c cmds)
  from Cons.IH [OF inv_exec [OF Cons.prems, of c]] show ?case by (simp add: run_def)
qed

lemma inv_build: "names_match (build cmds) \<and> arcs_closed (build cmds)"
  unfolding build_def
  by (rule inv_run) (simp add: names_match_def arcs_closed_def PetriNet_def)

lemma build_demo: "build demo_cmds = demo_net"
  by (simp add: build_def run_def demo_cmds_def demo_net_def demo_t1_def PetriNet_def
      add_place_def add_transition_def add_arc_def add_input_arc_def add_output_arc_def
      Place_def Transition_def set_pos_def)

lemma all_tokens_ge_True:
  "(all_tokens_ge ps xs = Inr True) =
     (\<forall>(nm, w) \<in> set xs. \<exists>p. map_of ps nm = Some p \<and> w \<le> tokens p)"
  by (induction xs) (auto split: option.splits if_splits)

lemma all_tokens_ge_total:
  "\<forall>(nm, w) \<in> set xs. nm \<in> fst ` set ps \<Longrightarrow> \<exists>b. all_tokens_ge ps xs = Inr b"
proof (induction xs)
  case Nil
  show ?case by auto
next
  case (Cons x xs)
  obtain nm w where x: "x = (nm, w)" by (cases x)
  with Cons.prems have "nm \<in> fst ` set ps" by simp
  then obtain p where "map_of ps nm = Some p"
    by (metis map_of_eq_None_iff not_None_eq)
  moreover from Cons.prems have "\<forall>(nm, w) \<in> set xs. nm \<in> fst ` set ps" by simp
  then obtain b where "all_tokens_ge ps xs = Inr b" using Cons.IH by blast
  ultimately show ?case using x by auto
qed

lemma any_enabled_total:
  "\<forall>t \<in> set ts. \<exists>b. is_enabled t ps = Inr b \<Longrightarrow>
     any_enabled ps ts = Inr (\<exists>t \<in> set ts. is_enabled t ps = Inr True)"
  by (induction ts) auto

lemma is_enabled_total:
  assumes "arcs_closed net" and "(n, t) \<in> set (transitions net)"
  shows "\<exists>b. is_enabled t (places net) = Inr b"
  unfolding is_enabled_def
proof (rule all_tokens_ge_total, clarify)
  fix nm w assume "(nm, w) \<in> set (input_arcs t)"
  then have "(nm, w) \<in> set (input_arcs t) \<union> set (output_arcs t)" by simp
  from arcs_closedD [OF assms this] show "nm \<in> fst ` set (places net)" .
qed

lemma has_live_total:
  assumes "arcs_closed net"
  shows "has_live_transitions net =
           Inr (\<exists>t \<in> snd ` set (transitions net). is_enabled t (places net) = Inr True)"
proof -
  have "\<forall>t \<in> set (map snd (transitions net)). \<exists>b. is_enabled t (places net) = Inr b"
    using is_enabled_total [OF assms] by auto
  from any_enabled_total [OF this] show ?thesis
    by (simp add: has_live_transitions_def)
qed

text \<open>
  Claim C9. In every net built from the empty net by calls of \<open>add_place\<close>,
  \<open>add_transition\<close> and \<open>add_arc\<close>, every place name that is a key of the input or
  output arcs of a transition is a key of \<open>places\<close>; so \<open>is_enabled\<close> of each of its
  transitions and \<open>has_live_transitions\<close> return a truth value and raise no
  \<^verbatim>\<open>KeyError\<close>.
\<close>

theorem arc_places_exist:
  "(\<forall>(n, t) \<in> set (transitions (build cmds)).
      \<forall>(k, w) \<in> set (input_arcs t) \<union> set (output_arcs t).
        k \<in> fst ` set (places (build cmds)))
   \<and> (\<forall>(n, t) \<in> set (transitions (build cmds)).
        \<exists>b. is_enabled t (places (build cmds)) = Inr b)
   \<and> (\<exists>b. has_live_transitions (build cmds) = Inr b)"
proof -
  have ac: "arcs_closed (build cmds)" using inv_build by simp
  have 1: "\<forall>(n, t) \<in> set (transitions (build cmds)).
      \<forall>(k, w) \<in> set (input_arcs t) \<union> set (output_arcs t).
        k \<in> fst ` set (places (build cmds))"
    using arcs_closedD [OF ac] by blast
  have 2: "\<forall>(n, t) \<in> set (transitions (build cmds)).
        \<exists>b. is_enabled t (places (build cmds)) = Inr b"
    using is_enabled_total [OF ac] by blast
  have 3: "\<exists>b. has_live_transitions (build cmds) = Inr b"
    using has_live_total [OF ac] by simp
  from 1 2 3 show ?thesis by simp
qed

theorem arc_places_exist_witness:
  "(''t1'', demo_t1) \<in> set (transitions (build demo_cmds))
   \<and> (''p1'', 1) \<in> set (input_arcs demo_t1) \<union> set (output_arcs demo_t1)
   \<and> ''p1'' \<in> fst ` set (places (build demo_cmds))
   \<and> (\<exists>b. is_enabled demo_t1 (places (build demo_cmds)) = Inr b)
   \<and> (\<exists>b. has_live_transitions (build demo_cmds) = Inr b)"
proof -
  have t: "(''t1'', demo_t1) \<in> set (transitions (build demo_cmds))"
    by (simp add: build_demo demo_net_def)
  have a: "(''p1'', 1) \<in> set (input_arcs demo_t1) \<union> set (output_arcs demo_t1)"
    by (simp add: demo_t1_def)
  from arc_places_exist [of demo_cmds] t a show ?thesis by blast
qed

text \<open>
  Claim C5. \<open>is_enabled\<close> returns true exactly when every pair (place, weight) of the
  transition's input arcs finds its place in the marking with at least \<open>weight\<close>
  tokens; a transition without input arcs is enabled; and on every net built by the
  construction calls \<open>has_live_transitions\<close> returns whether some transition is enabled
  under this rule.
\<close>

theorem is_enabled_weight_rule:
  "((is_enabled t ps = Inr True) =
      (\<forall>(nm, weight) \<in> set (input_arcs t). \<exists>p. map_of ps nm = Some p \<and> weight \<le> tokens p))
   \<and> (input_arcs t = [] \<longrightarrow> is_enabled t ps = Inr True)
   \<and> has_live_transitions (build cmds) =
        Inr (\<exists>tr \<in> snd ` set (transitions (build cmds)).
               is_enabled tr (places (build cmds)) = Inr True)"
proof -
  have 1: "(is_enabled t ps = Inr True) =
      (\<forall>(nm, weight) \<in> set (input_arcs t). \<exists>p. map_of ps nm = Some p \<and> weight \<le> tokens p)"
    unfolding is_enabled_def by (rule all_tokens_ge_True)
  have 2: "input_arcs t = [] \<longrightarrow> is_enabled t ps = Inr True"
    by (simp add: is_enabled_def)
  have "arcs_closed (build cmds)" using inv_build by simp
  from has_live_total [OF this] 1 2 show ?thesis by blast
qed

theorem is_enabled_weight_rule_witness:
  "is_enabled demo_t1 (places demo_net) = Inr True
   \<and> is_enabled (Transition ''t2'') (places demo_net) = Inr True
   \<and> has_live_transitions (build demo_cmds) = Inr True"
proof -
  have 1: "\<forall>(nm, weight) \<in> set (input_arcs demo_t1).
             \<exists>p. map_of (places demo_net) nm = Some p \<and> weight \<le> tokens p"
    by (simp add: demo_t1_def demo_net_def)
  have 2: "input_arcs (Transition ''t2'') = []" by (simp add: Transition_def)
  have 3: "demo_t1 \<in> snd ` set (transitions (build demo_cmds))"
    by (simp add: build_demo demo_net_def)
  from is_enabled_weight_rule [of demo_t1 "places demo_net" demo_cmds] 1
  have e: "is_enabled demo_t1 (places demo_net) = Inr True" by blast
  from is_enabled_weight_rule [of "Transition ''t2''" "places demo_net" demo_cmds] 2
  have v: "is_enabled (Transition ''t2'') (places demo_net) = Inr True" by blast
  from 3 e have "\<exists>tr \<in> snd ` set (transitions (build demo_cmds)).
                   is_enabled tr (places (build demo_cmds)) = Inr True"
    unfolding build_demo by blast
  with is_enabled_weight_rule [of demo_t1 "places demo_net" demo_cmds]
  have "has_live_transitions (build demo_cmds) = Inr True" by simp
  with e v show ?thesis by simp
qed

lemma is_bounded_iff: "is_bounded net = (\<forall>p \<in> snd ` set (places net). 0 \<le> tokens p)"
  by (auto simp: is_bounded_def list_all_iff)

lemma is_bounded_add_place:
  assumes "is_bounded net" and "0 \<le> tk"
  shows "is_bounded (add_place net nm tk)"
  unfolding is_bounded_iff
proof
  fix p assume "p \<in> snd ` set (places (add_place net nm tk))"
  then obtain k where "(k, p) \<in> set (AList.update nm (Place nm tk) (places net))"
    by (auto simp: add_place_def)
  then have "(k, p) = (nm, Place nm tk) \<or> (k, p) \<in> set (places net)" by (rule update_elem)
  then show "0 \<le> tokens p"
  proof
    assume "(k, p) = (nm, Place nm tk)"
    with assms(2) show ?thesis by (simp add: Place_def)
  next
    assume "(k, p) \<in> set (places net)"
    with assms(1) show ?thesis by (force simp: is_bounded_iff)
  qed
qed

lemma is_bounded_exec:
  "is_bounded net \<Longrightarrow> nonneg_tokens c \<Longrightarrow> is_bounded (exec c net)"
  by (cases c) (simp_all add: is_bounded_add_place, simp_all add: is_bounded_def
      add_transition_def places_add_arc)

lemma is_bounded_run:
  "is_bounded net \<Longrightarrow> list_all nonneg_tokens cmds \<Longrightarrow> is_bounded (run cmds net)"
proof (induction cmds arbitrary: net)
  case Nil
  then show ?case by (simp add: run_def)
next
  case (Cons c cmds)
  from Cons.prems have "is_bounded (exec c net)" by (simp add: is_bounded_exec)
  with Cons.prems Cons.IH [of "exec c net"] show ?case by (simp add: run_def)
qed

text \<open>
  Claim C2, which fails: \<open>add_place\<close> stores the token count it is given, and the callers
  pass \<^verbatim>\<open>int(...)\<close> of the marking text, so a place can hold a negative count and
  \<open>is_bounded\<close> then returns false.
\<close>

theorem negative_tokens_counterexample:
  "map_of (places (build [AddPlace ''p1'' (- 1)])) ''p1'' = Some \<lparr>name = ''p1'', tokens = - 1\<rparr>
   \<and> \<not> is_bounded (build [AddPlace ''p1'' (- 1)])"
  by (simp add: build_def run_def PetriNet_def add_place_def Place_def is_bounded_def)

lemma update_mem: "(k, v) \<in> set (AList.update k v al)"
  by (induction al) auto

lemma negative_place_unbounded:
  assumes "tk < 0"
  shows "\<not> is_bounded (add_place net nm tk)"
proof -
  have "Place nm tk \<in> snd ` set (places (add_place net nm tk))"
    using update_mem [of nm "Place nm tk" "places net"] by (force simp: add_place_def)
  moreover have "\<not> 0 \<le> tokens (Place nm tk)" using assms by (simp add: Place_def)
  ultimately show ?thesis unfolding is_bounded_iff by blast
qed

text \<open>
  Claim C2 as amended. In every net built from the empty net by calls of \<open>add_place\<close>,
  \<open>add_transition\<close> and \<open>add_arc\<close> in which every token count given to \<open>add_place\<close> is
  at least 0 (the marking is assigned through that argument only), every place's token
  count is at least 0 and \<open>is_bounded\<close> returns true. On every net \<open>add_place\<close> accepts
  a negative token count: it stores the count, and \<open>is_bounded\<close> then returns false.
\<close>

theorem nonneg_tokens_bounded:
  "(list_all nonneg_tokens cmds \<longrightarrow>
      (\<forall>p \<in> snd ` set (places (build cmds)). 0 \<le> tokens p) \<and> is_bounded (build cmds))
   \<and> (tk < 0 \<longrightarrow>
        map_of (places (add_place net nm tk)) nm = Some \<lparr>name = nm, tokens = tk\<rparr>
        \<and> \<not> is_bounded (add_place net nm tk))"
proof -
  have 1: "(\<forall>p \<in> snd ` set (places (build cmds)). 0 \<le> tokens p) \<and> is_bounded (build cmds)"
    if "list_all nonneg_tokens cmds"
  proof -
    have "is_bounded PetriNet" by (simp add: is_bounded_def PetriNet_def)
    from is_bounded_run [OF this that] have "is_bounded (build cmds)" by (simp add: build_def)
    then show ?thesis by (simp add: is_bounded_iff)
  qed
  have 2: "map_of (places (add_place net nm tk)) nm = Some \<lparr>name = nm, tokens = tk\<rparr>"
    by (simp add: add_place_def Place_def AList.update_conv')
  from 1 2 negative_place_unbounded [of tk net nm] show ?thesis by blast
qed

theorem nonneg_tokens_bounded_witness:
  "list_all nonneg_tokens demo_cmds
   \<and> \<lparr>name = ''p1'', tokens = 1\<rparr> \<in> snd ` set (places (build demo_cmds))
   \<and> is_bounded (build demo_cmds)
   \<and> (- 3 :: int) < 0
   \<and> map_of (places (add_place (build demo_cmds) ''p2'' (- 3))) ''p2''
       = Some \<lparr>name = ''p2'', tokens = - 3\<rparr>
   \<and> \<not> is_bounded (add_place (build demo_cmds) ''p2'' (- 3))"
proof -
  have h: "list_all nonneg_tokens demo_cmds" by (simp add: demo_cmds_def)
  have n: "(- 3 :: int) < 0" by simp
  have p: "\<lparr>name = ''p1'', tokens = 1\<rparr> \<in> snd ` set (places (build demo_cmds))"
    by (simp add: build_demo demo_net_def)
  from nonneg_tokens_bounded [of demo_cmds "- 3" "build demo_cmds" "''p2''"] h n p
  show ?thesis by blast
qed

lemma clash_net_eq:
  "clash_net = \<lparr>places = [(''x'', \<lparr>name = ''x'', tokens = 0\<rparr>)],
                transitions = [(''x'', \<lparr>t_name = ''x'', input_arcs = [], output_arcs = []\<rparr>)],
                arcs = [], pos = [''x'']\<rparr>"
  by (simp add: clash_net_def build_def run_def PetriNet_def add_place_def add_transition_def
      Place_def Transition_def set_pos_def)

text \<open>
  Claim C1, which fails: \<open>add_arc\<close> between the two places \<open>p1\<close> and \<open>p2\<close> raises
  nothing and makes the arc list longer; and where the name \<open>x\<close> is a place and a
  transition, \<open>add_arc\<close> from \<open>x\<close> to \<open>x\<close> (both are places) changes the input arcs of
  the transition \<open>x\<close>.
\<close>

theorem add_arc_invalid_counterexample:
  "''p1'' \<in> place_names demo_net \<and> ''p2'' \<in> place_names demo_net
   \<and> length (arcs demo_net) = 2
   \<and> length (arcs (add_arc demo_net ''p1'' ''p2'' 1)) = 3
   \<and> ''x'' \<in> place_names clash_net
   \<and> map_of (transitions clash_net) ''x''
       = Some \<lparr>t_name = ''x'', input_arcs = [], output_arcs = []\<rparr>
   \<and> map_of (transitions (add_arc clash_net ''x'' ''x'' 1)) ''x''
       = Some \<lparr>t_name = ''x'', input_arcs = [(''x'', 1)], output_arcs = []\<rparr>"
  by (simp add: clash_net_eq demo_net_def place_names_def add_arc_def add_input_arc_def)

lemma add_arc_neither:
  assumes "map_of (places net) s = None \<or> map_of (transitions net) t = None"
    and "map_of (transitions net) s = None \<or> map_of (places net) t = None"
  shows "transitions (add_arc net s t w) = transitions net"
  using assms by (auto simp: add_arc_def Let_def split: option.splits)

text \<open>
  Claim C1 as amended. In a net where no name is both a place and a transition, for
  every pair of names that are both places, both transitions, or of which one is unknown
  to the net, \<open>add_arc\<close> returns without an error, appends the arc to the arc list (its
  length grows by one) and leaves the places and every transition's input and output
  arcs unchanged.
\<close>

theorem add_arc_no_direction:
  assumes disj: "place_names net \<inter> transition_names net = {}"
    and pair: "(s \<in> place_names net \<and> t \<in> place_names net)
               \<or> (s \<in> transition_names net \<and> t \<in> transition_names net)
               \<or> s \<notin> place_names net \<union> transition_names net
               \<or> t \<notin> place_names net \<union> transition_names net"
  shows "arcs (add_arc net s t w) = arcs net @ [(s, t, w)]
         \<and> length (arcs (add_arc net s t w)) = length (arcs net) + 1
         \<and> transitions (add_arc net s t w) = transitions net
         \<and> places (add_arc net s t w) = places net"
proof -
  have none_p: "map_of (places net) k = None" if "k \<notin> place_names net" for k
    using that by (simp add: place_names_def map_of_eq_None_iff)
  have none_t: "map_of (transitions net) k = None" if "k \<notin> transition_names net" for k
    using that by (simp add: transition_names_def map_of_eq_None_iff)
  from disj pair
  have 1: "s \<notin> place_names net \<or> t \<notin> transition_names net"
    and 2: "s \<notin> transition_names net \<or> t \<notin> place_names net"
    by blast+
  from 1 have a: "map_of (places net) s = None \<or> map_of (transitions net) t = None"
    using none_p [of s] none_t [of t] by auto
  from 2 have b: "map_of (transitions net) s = None \<or> map_of (places net) t = None"
    using none_t [of s] none_p [of t] by auto
  from add_arc_neither [OF a b] show ?thesis
    by (simp add: arcs_add_arc places_add_arc)
qed

theorem add_arc_no_direction_witness:
  "place_names demo_net \<inter> transition_names demo_net = {}
   \<and> ''p1'' \<in> place_names demo_net \<and> ''p2'' \<in> place_names demo_net
   \<and> arcs (add_arc demo_net ''p1'' ''p2'' 1)
       = [(''p1'', ''t1'', 1), (''t1'', ''p2'', 1), (''p1'', ''p2'', 1)]
   \<and> transitions (add_arc demo_net ''p1'' ''p2'' 1) = transitions demo_net"
proof -
  have d: "place_names demo_net \<inter> transition_names demo_net = {}"
    by (simp add: place_names_def transition_names_def demo_net_def)
  have p: "''p1'' \<in> place_names demo_net \<and> ''p2'' \<in> place_names demo_net"
    by (simp add: place_names_def demo_net_def)
  from add_arc_no_direction [OF d, of "''p1''" "''p2''" 1] p
  have "arcs (add_arc demo_net ''p1'' ''p2'' 1) = arcs demo_net @ [(''p1'', ''p2'', 1)]
        \<and> transitions (add_arc demo_net ''p1'' ''p2'' 1) = transitions demo_net"
    by blast
  with d p show ?thesis by (simp add: demo_net_def)
qed

text \<open>
  Claim C3, which fails: a second \<open>add_place\<close> of the name \<open>p1\<close> raises nothing and
  replaces the token count 1 of the first place by 5; \<open>add_transition\<close> of a name that a
  place uses raises nothing either.
\<close>

theorem duplicate_name_counterexample:
  "map_of (places (build [AddPlace ''p1'' 1])) ''p1'' = Some \<lparr>name = ''p1'', tokens = 1\<rparr>
   \<and> map_of (places (add_place (build [AddPlace ''p1'' 1]) ''p1'' 5)) ''p1''
       = Some \<lparr>name = ''p1'', tokens = 5\<rparr>
   \<and> ''p1'' \<in> place_names (build [AddPlace ''p1'' 1])
   \<and> ''p1'' \<in> transition_names (add_transition (build [AddPlace ''p1'' 1]) ''p1'')"
  by (simp add: build_def run_def PetriNet_def add_place_def add_transition_def Place_def
      place_names_def transition_names_def)

text \<open>
  Claim C3 as amended. \<open>add_place\<close> and \<open>add_transition\<close> return without an error for
  every name, used or not. \<open>add_place\<close> binds the name to a place with the given token
  count, in place of an earlier place of that name, and leaves the transitions and arcs
  as they are; \<open>add_transition\<close> binds the name to a transition without arcs, in place of
  an earlier transition of that name, and leaves the places and arcs as they are. Places
  and transitions are two dictionaries: a name may be in both.
\<close>

theorem add_node_overwrites:
  "map_of (places (add_place net nm tk)) = (map_of (places net))(nm \<mapsto> \<lparr>name = nm, tokens = tk\<rparr>)
   \<and> transitions (add_place net nm tk) = transitions net
   \<and> arcs (add_place net nm tk) = arcs net
   \<and> map_of (transitions (add_transition net nm))
       = (map_of (transitions net))(nm \<mapsto> \<lparr>t_name = nm, input_arcs = [], output_arcs = []\<rparr>)
   \<and> places (add_transition net nm) = places net
   \<and> arcs (add_transition net nm) = arcs net"
  by (simp add: add_place_def add_transition_def Place_def Transition_def AList.update_conv')

lemma tp101_all_tokens_ge_eq: "tp101_all_tokens_ge ps xs = all_tokens_ge ps xs"
  by (induction xs) (auto split: option.splits)

lemma tp101_is_enabled_eq: "tp101_is_enabled t ps = is_enabled t ps"
  by (simp add: tp101_is_enabled_def is_enabled_def tp101_all_tokens_ge_eq)

lemma tp101_any_enabled_eq: "tp101_any_enabled ps ts = any_enabled ps ts"
  by (induction ts) (auto simp: tp101_is_enabled_eq split: sum.splits)

lemma tp101_add_place_eq: "tp101_add_place net nm tk = add_place net nm tk"
  by (simp add: tp101_add_place_def add_place_def tp101_Place_def Place_def)

lemma tp101_add_transition_eq: "tp101_add_transition net nm = add_transition net nm"
  by (simp add: tp101_add_transition_def add_transition_def tp101_Transition_def Transition_def)

lemma tp101_add_input_arc_eq: "tp101_add_input_arc = add_input_arc"
  by (simp add: fun_eq_iff tp101_add_input_arc_def add_input_arc_def)

lemma tp101_add_output_arc_eq: "tp101_add_output_arc = add_output_arc"
  by (simp add: fun_eq_iff tp101_add_output_arc_def add_output_arc_def)

lemma tp101_add_arc_eq: "tp101_add_arc net s t w = add_arc net s t w"
  unfolding tp101_add_arc_def add_arc_def tp101_add_input_arc_eq tp101_add_output_arc_eq
  by (rule refl)

lemma tp101_exec_eq: "tp101_exec c net = exec c net"
  by (cases c) (simp_all add: tp101_add_place_eq tp101_add_transition_eq tp101_add_arc_eq)

lemma tp101_fold_eq: "fold tp101_exec cmds net = run cmds net"
  by (induction cmds arbitrary: net) (simp_all add: run_def tp101_exec_eq)

text \<open>
  Claim C8. After the same sequence of \<open>add_place\<close>, \<open>add_transition\<close> and \<open>add_arc\<close>
  calls the classes of tp101.py and of petrinetsimple.py hold the same places,
  transitions (with their input and output arcs) and arc list, and \<open>is_enabled\<close>,
  \<open>is_bounded\<close> and \<open>has_live_transitions\<close> return the same results.
\<close>

theorem variants_agree:
  "tp101_build cmds = build cmds
   \<and> tp101_is_enabled t ps = is_enabled t ps
   \<and> tp101_is_bounded (tp101_build cmds) = is_bounded (build cmds)
   \<and> tp101_has_live_transitions (tp101_build cmds) = has_live_transitions (build cmds)"
proof -
  have b: "tp101_build cmds = build cmds"
    by (simp add: tp101_build_def build_def tp101_fold_eq tp101_PetriNet_def PetriNet_def)
  then show ?thesis
    by (simp add: tp101_is_enabled_eq tp101_is_bounded_def is_bounded_def
        tp101_has_live_transitions_def has_live_transitions_def tp101_any_enabled_eq)
qed

section \<open>Properties of the analyzer\<close>

lemma valid_remdups: "valid_set_order remdups"
  by (simp add: valid_set_order_def)


lemma strip_sample_names:
  "strip ''p1'' = ''p1''" "strip ''p2'' = ''p2''" "strip ''p3'' = ''p3''"
  "strip ''p4'' = ''p4''" "strip ''t0'' = ''t0''" "strip ''t1'' = ''t1''"
  "strip ''t2'' = ''t2''" "strip ''t3'' = ''t3''" "strip ''t9'' = ''t9''"
  by (simp_all add: strip_def is_space_def)

lemmas load_simps =
  load_network_def Let_def validate_network_def build_graph_def add_nodes_from_def
  add_edges_from_def touch_node_def DiGraph_def PetriNetAnalyzer_def strip_sample_names





lemma chain_loaded_fields:
  "a_transitions chain_loaded = [''t1'', ''t2'', ''t3'']"
  "a_arcs chain_loaded =
     [(''p1'', ''t1''), (''t1'', ''p2''), (''p2'', ''t2''), (''t2'', ''p3''),
      (''p3'', ''t3''), (''t3'', ''p4'')]"
  "marking chain_loaded = [(''p1'', 1), (''p2'', 0)]"
  by (simp_all add: load_simps chain_loaded_def
      chain_places_def chain_transitions_def chain_arcs_def chain_marking_def)

lemma collect_enabled_filter:
  "collect_enabled a ts acc = acc @ filter (enabled_test a) ts"
  by (induction ts arbitrary: acc) simp_all

lemma get_enabled_filter:
  "get_enabled_transitions a = filter (enabled_test a) (a_transitions a)"
  by (simp add: get_enabled_transitions_def collect_enabled_filter)

lemma count_live_filter:
  "count_live a ts n = n + length (filter (structurally_live a) ts)"
  by (induction ts arbitrary: n) simp_all

lemma inputs_empty_iff:
  "(map fst (filter (\<lambda>(src, dest). dest = t) xs) = []) = (\<forall>src. (src, t) \<notin> set xs)"
  by (induction xs) auto

lemma inputs_set: "set (map fst (filter (\<lambda>(src, dest). dest = t) xs)) = {src. (src, t) \<in> set xs}"
  by (induction xs) auto

lemma outputs_set: "set (map snd (filter (\<lambda>(src, dest). src = t) xs)) = {dest. (t, dest) \<in> set xs}"
  by (induction xs) auto

lemma marking_get_positive:
  "(0 < marking_get a p 0) = (\<exists>v. map_of (marking a) p = Some v \<and> 0 < v)"
  by (simp add: marking_get_def split: option.splits)

lemma enabled_test_iff:
  "enabled_test a t =
     ((\<exists>src. (src, t) \<in> set (a_arcs a))
      \<and> (\<forall>src. (src, t) \<in> set (a_arcs a) \<longrightarrow> (\<exists>v. map_of (marking a) src = Some v \<and> 0 < v)))"
  unfolding enabled_test_def Let_def inputs_empty_iff list_all_iff inputs_set
    marking_get_positive by auto

lemma structurally_live_iff:
  "structurally_live a t =
     ((\<exists>src. (src, t) \<in> set (a_arcs a)) \<and> (\<exists>dest. (t, dest) \<in> set (a_arcs a))
      \<and> (\<forall>src. (src, t) \<in> set (a_arcs a) \<longrightarrow> (\<exists>v. map_of (marking a) src = Some v \<and> 0 < v)))"
  unfolding structurally_live_def Let_def inputs_set outputs_set marking_get_positive by auto

lemma live_imp_enabled: "structurally_live a t \<Longrightarrow> enabled_test a t"
  by (simp add: structurally_live_iff enabled_test_iff)

lemma arc_items_pairs:
  "\<forall>arc \<in> set as. length arc = 2 \<Longrightarrow>
     arc_items as acc = Inr (acc @ map (\<lambda>arc. (strip (arc ! 0), strip (arc ! 1))) as)"
proof (induction as arbitrary: acc)
  case Nil
  then show ?case by simp
next
  case (Cons arc as)
  from Cons.prems have "length arc = 2" by simp
  then obtain src dest where arc: "arc = [src, dest]"
    by (cases arc; cases "tl arc") auto
  from Cons.prems have "\<forall>arc \<in> set as. length arc = 2" by simp
  from Cons.IH [OF this] show ?case by (simp add: arc)
qed

lemma unpack_pair_error:
  "length arc \<noteq> 2 \<Longrightarrow> \<exists>msg. unpack_pair arc = Inl (ValueError msg)"
  by (cases arc rule: unpack_pair.cases) simp_all

lemma unpack_pair_ok: "length arc = 2 \<Longrightarrow> \<exists>src dest. unpack_pair arc = Inr (src, dest)"
  by (cases arc rule: unpack_pair.cases) simp_all

lemma arc_items_error:
  "\<exists>arc \<in> set as. length arc \<noteq> 2 \<Longrightarrow> \<exists>msg. arc_items as acc = Inl (ValueError msg)"
proof (induction as arbitrary: acc)
  case Nil
  then show ?case by simp
next
  case (Cons arc as)
  show ?case
  proof (cases "length arc = 2")
    case True
    then obtain src dest where u: "unpack_pair arc = Inr (src, dest)"
      using unpack_pair_ok by blast
    from Cons.prems True have "\<exists>arc \<in> set as. length arc \<noteq> 2" by auto
    from Cons.IH [OF this] u show ?thesis by simp
  next
    case False
    then obtain msg where "unpack_pair arc = Inl (ValueError msg)"
      using unpack_pair_error by blast
    then show ?thesis by simp
  qed
qed

lemma arc_items_ok_pairs:
  assumes "arc_items as acc = Inr as'"
  shows "\<forall>arc \<in> set as. length arc = 2"
proof (rule ccontr)
  assume "\<not> (\<forall>arc \<in> set as. length arc = 2)"
  then have "\<exists>arc \<in> set as. length arc \<noteq> 2" by simp
  from arc_items_error [OF this, of acc] assms show False by auto
qed





subsection \<open>Rounding to the nearest double\<close>

lemma round_half_even_cases:
  "round_half_even x = \<lfloor>x\<rfloor> \<or> round_half_even x = \<lfloor>x\<rfloor> + 1"
  by (simp add: round_half_even_def Let_def)



lemma round_half_even_le: "x \<le> of_int n \<Longrightarrow> round_half_even x \<le> n"
proof -
  assume le: "x \<le> of_int n"
  then have f: "\<lfloor>x\<rfloor> \<le> n" by (simp add: floor_le_iff) 
  show ?thesis
  proof (cases "\<lfloor>x\<rfloor> = n")
    case True
    have "of_int \<lfloor>x\<rfloor> \<le> x" by linarith
    with True le have "x = of_int n" by simp
    then show ?thesis by (simp add: round_half_even_def)
  next
    case False
    with f have "\<lfloor>x\<rfloor> + 1 \<le> n" by simp
    with round_half_even_cases [of x] f show ?thesis by auto
  qed
qed



lemma nearest_double_zero: "nearest_double 0 = 0"
  by (simp add: nearest_double_def Let_def round_half_even_def)

lemma nearest_double_positive:
  assumes "0 < nearest_double q"
  shows "0 < q"
proof (rule ccontr)
  assume "\<not> 0 < q"
  let ?s = "binade q 0 + 52"
  from \<open>\<not> 0 < q\<close> have "q * 2 ^ ?s \<le> of_int 0" by (simp add: mult_le_0_iff)
  then have "round_half_even (q * 2 ^ ?s) \<le> 0" by (rule round_half_even_le)
  then have "nearest_double q \<le> 0"
    by (simp add: nearest_double_def Let_def divide_le_0_iff)
  with assms show False by simp
qed


lemma nearest_double_half: "nearest_double (1 / 2) = 1 / 2"
  by (simp add: nearest_double_def binade.simps round_half_even_def)

lemma nearest_double_third: "nearest_double (1 / 3) = 6004799503160661 / 18014398509481984"
  by (simp add: nearest_double_def binade.simps round_half_even_def Let_def)

lemma analyze_liveness_eq:
  "analyze_liveness a =
     (if a_transitions a = [] then 0
      else nearest_double (real (length (filter (structurally_live a) (a_transitions a)))
                           / real (length (a_transitions a))))"
  by (simp add: analyze_liveness_def Let_def count_live_filter true_div_def)

lemma scenario_liveness: "analyze_liveness scenario_loaded = 1 / 2"
  by (simp add: analyze_liveness_eq scenario_loaded_def structurally_live_def marking_get_def
      nearest_double_half)

lemma chain_liveness:
  "analyze_liveness chain_loaded = 6004799503160661 / 18014398509481984"
  by (simp add: analyze_liveness_eq chain_loaded_fields structurally_live_def marking_get_def
      nearest_double_third)

subsection \<open>Enabled transitions\<close>







subsection \<open>Liveness\<close>









text \<open>
  Claim C10. In every analyzer state, so after every successful load, each transition
  that \<open>analyze_liveness\<close> counts is in the result of \<open>get_enabled_transitions\<close>, and a
  liveness above 0 implies that this result is not empty.
\<close>

theorem live_subset_enabled:
  "(\<forall>t \<in> set (a_transitions a).
      structurally_live a t \<longrightarrow> t \<in> set (get_enabled_transitions a))
   \<and> (0 < analyze_liveness a \<longrightarrow> get_enabled_transitions a \<noteq> [])"
proof -
  have sub: "\<forall>t \<in> set (a_transitions a).
      structurally_live a t \<longrightarrow> t \<in> set (get_enabled_transitions a)"
    by (simp add: get_enabled_filter live_imp_enabled)
  have "get_enabled_transitions a \<noteq> []" if pos: "0 < analyze_liveness a"
  proof -
    from pos have "0 < nearest_double
        (real (length (filter (structurally_live a) (a_transitions a)))
         / real (length (a_transitions a)))"
      by (simp add: analyze_liveness_eq split: if_splits)
    then have "0 < real (length (filter (structurally_live a) (a_transitions a)))
                   / real (length (a_transitions a))"
      by (rule nearest_double_positive)
    then have "0 < length (filter (structurally_live a) (a_transitions a))"
      by (simp add: zero_less_divide_iff)
    then obtain t where "t \<in> set (a_transitions a)" and "structurally_live a t"
      by (metis filter_empty_conv length_greater_0_conv)
    with sub have "t \<in> set (get_enabled_transitions a)" by blast
    then show ?thesis by auto
  qed
  with sub show ?thesis by blast
qed

theorem live_subset_enabled_witness:
  "''t1'' \<in> set (a_transitions scenario_loaded) \<and> structurally_live scenario_loaded ''t1''
   \<and> 0 < analyze_liveness scenario_loaded
   \<and> ''t1'' \<in> set (get_enabled_transitions scenario_loaded)
   \<and> get_enabled_transitions scenario_loaded \<noteq> []"
proof -
  have 1: "''t1'' \<in> set (a_transitions scenario_loaded)" by (simp add: scenario_loaded_def)
  have 2: "structurally_live scenario_loaded ''t1''"
    by (simp add: structurally_live_def scenario_loaded_def marking_get_def)
  have 3: "0 < analyze_liveness scenario_loaded" by (simp add: scenario_liveness)
  from live_subset_enabled [of scenario_loaded] 1 2 3 show ?thesis by blast
qed

subsection \<open>Loading\<close>

lemma validate_arcs_ok_iff:
  "(validate_arcs a xs = Inr ()) =
     (\<forall>(src, dest) \<in> set xs.
        (src \<in> set (a_places a) \<or> src \<in> set (a_transitions a))
        \<and> (dest \<in> set (a_places a) \<or> dest \<in> set (a_transitions a)))"
  by (induction a xs rule: validate_arcs.induct) auto

lemma validate_arcs_error:
  "validate_arcs a xs = Inr () \<or> (\<exists>msg. validate_arcs a xs = Inl (ValueError msg))"
  by (induction a xs rule: validate_arcs.induct) simp_all

lemma validate_marking_ok_iff:
  "(validate_marking a xs = Inr ()) = (\<forall>(p, v) \<in> set xs. p \<in> set (a_places a))"
  by (induction a xs rule: validate_marking.induct) simp_all

lemma validate_marking_error:
  "validate_marking a xs = Inr () \<or> (\<exists>msg. validate_marking a xs = Inl (ValueError msg))"
  by (induction a xs rule: validate_marking.induct) simp_all

lemma validate_network_error:
  "validate_network a = Inr () \<or> (\<exists>msg. validate_network a = Inl (ValueError msg))"
  using validate_arcs_error [of a "a_arcs a"] validate_marking_error [of a "marking a"]
  by (auto simp: validate_network_def)

lemma validate_network_ok_iff:
  "(validate_network a = Inr ()) =
     (validate_arcs a (a_arcs a) = Inr () \<and> validate_marking a (marking a) = Inr ())"
  by (auto simp: validate_network_def split: sum.splits)

lemma marking_items_keys:
  "marking_items to_int m acc = Inr m' \<Longrightarrow>
     fst ` set m' = fst ` set acc \<union> (\<lambda>(p, v). strip p) ` set m"
proof (induction m arbitrary: acc)
  case Nil
  then show ?case by simp
next
  case (Cons x m)
  obtain p v where x: "x = (p, v)" by (cases x)
  with Cons.prems obtain n where n: "to_int v = Inr n"
    and rest: "marking_items to_int m (AList.update (strip p) n acc) = Inr m'"
    by (auto split: sum.splits)
  from Cons.IH [OF rest] show ?case
    by (simp add: x AList.dom_update insert_commute Un_commute Un_left_commute)
qed

lemma load_failure_graph:
  "fst (load_network set_of to_int a ps ts as m) \<noteq> Inr () \<Longrightarrow>
     graph (snd (load_network set_of to_int a ps ts as m)) = graph a"
  by (auto simp: load_network_def Let_def split: sum.splits)

lemma load_unpack_failure:
  assumes "\<exists>arc \<in> set as. length arc \<noteq> 2"
  shows "\<exists>msg. load_network set_of to_int a ps ts as m =
           (Inl (ValueError msg), a\<lparr>a_places := set_of ps, a_transitions := set_of ts\<rparr>)"
proof -
  from arc_items_error [OF assms, of "[]"] obtain msg
    where "arc_items as [] = Inl (ValueError msg)" by blast
  then show ?thesis by (simp add: load_network_def Let_def)
qed

lemma load_validation_failure:
  assumes order: "valid_set_order set_of"
    and pairs: "\<forall>arc \<in> set as. length arc = 2"
    and conv: "marking_items to_int m [] = Inr m'"
    and bad: "(\<exists>arc \<in> set as. strip (arc ! 0) \<notin> set ps \<union> set ts
                               \<or> strip (arc ! 1) \<notin> set ps \<union> set ts)
              \<or> (\<exists>(p, v) \<in> set m. strip p \<notin> set ps)"
  shows "\<exists>msg. load_network set_of to_int a ps ts as m =
            (Inl (ValueError msg),
             a\<lparr>a_places := set_of ps, a_transitions := set_of ts,
               a_arcs := map (\<lambda>arc. (strip (arc ! 0), strip (arc ! 1))) as,
               marking := m'\<rparr>)"
proof -
  let ?as = "map (\<lambda>arc. (strip (arc ! 0), strip (arc ! 1))) as"
  let ?a4 = "a\<lparr>a_places := set_of ps, a_transitions := set_of ts,
               a_arcs := ?as, marking := m'\<rparr>"
  from order have s: "\<And>xs. set (set_of xs) = set xs" by (simp add: valid_set_order_def)
  from arc_items_pairs [OF pairs, of "[]"] have items: "arc_items as [] = Inr ?as" by simp
  from marking_items_keys [OF conv]
  have keys: "fst ` set m' = (\<lambda>(p, v). strip p) ` set m" by simp
  have "validate_network ?a4 \<noteq> Inr ()"
  proof
    assume "validate_network ?a4 = Inr ()"
    then have arcs_ok: "validate_arcs ?a4 (a_arcs ?a4) = Inr ()"
      and marking_ok: "validate_marking ?a4 (marking ?a4) = Inr ()"
      by (simp_all add: validate_network_ok_iff)
    from arcs_ok have 1: "\<forall>arc \<in> set as.
        strip (arc ! 0) \<in> set ps \<union> set ts \<and> strip (arc ! 1) \<in> set ps \<union> set ts"
      by (auto simp: validate_arcs_ok_iff s)
    from marking_ok have "\<forall>k \<in> fst ` set m'. k \<in> set ps"
      by (auto simp: validate_marking_ok_iff s)
    then have 2: "\<forall>(p, v) \<in> set m. strip p \<in> set ps"
      unfolding keys by auto
    from bad 1 2 show False by blast
  qed
  with validate_network_error [of ?a4]
  obtain msg where "validate_network ?a4 = Inl (ValueError msg)" by blast
  then have "load_network set_of to_int a ps ts as m = (Inl (ValueError msg), ?a4)"
    by (simp add: load_network_def Let_def conv items)
  then show ?thesis by blast
qed

text \<open>
  Claim C4, which fails: a load that is refused for an undeclared arc endpoint has
  already overwritten the places, transitions, arcs and marking of the analyzer that had
  loaded the scenario.
\<close>

theorem load_failure_counterexample:
  "load_network remdups Inr scenario_loaded
       [''p1''] [''t1''] [[''p1'', ''t9'']] ([] :: (string \<times> int) list)
     = (Inl (ValueError ''Invalid destination node in arc: t9''),
        scenario_loaded\<lparr>a_places := [''p1''], a_transitions := [''t1''],
                        a_arcs := [(''p1'', ''t9'')], marking := []\<rparr>)
   \<and> a_places scenario_loaded = [''p1'', ''p2'', ''p3'']
   \<and> scenario_loaded\<lparr>a_places := [''p1''], a_transitions := [''t1''],
                       a_arcs := [(''p1'', ''t9'')], marking := []\<rparr> \<noteq> scenario_loaded"
  by (simp add: load_network_def Let_def validate_network_def scenario_loaded_def
      strip_sample_names)

text \<open>
  Claim C4 as amended. When every arc is a pair, the values of the marking convert to
  integers and, after \<^verbatim>\<open>strip()\<close>, an arc endpoint is not among the declared places
  and transitions or a marking entry names no declared place, \<open>load_network\<close> raises
  \<^verbatim>\<open>ValueError\<close>, and the places, transitions, arcs and marking of the analyzer are
  those of the refused call. When an arc is not a pair, \<open>load_network\<close> raises
  \<^verbatim>\<open>ValueError\<close> with the places and transitions of the refused call and the arcs and
  marking from before it. Whenever the call raises, validation has come before the
  building of the graph, which is the one from before the call.
\<close>

theorem load_network_invalid:
  assumes order: "valid_set_order set_of"
  shows "((\<forall>arc \<in> set as. length arc = 2) \<and> marking_items to_int m [] = Inr m'
          \<and> ((\<exists>arc \<in> set as. strip (arc ! 0) \<notin> set ps \<union> set ts
                                \<or> strip (arc ! 1) \<notin> set ps \<union> set ts)
              \<or> (\<exists>(p, v) \<in> set m. strip p \<notin> set ps))
          \<longrightarrow> (\<exists>msg. load_network set_of to_int a ps ts as m =
                  (Inl (ValueError msg),
                   a\<lparr>a_places := set_of ps, a_transitions := set_of ts,
                     a_arcs := map (\<lambda>arc. (strip (arc ! 0), strip (arc ! 1))) as,
                     marking := m'\<rparr>)))
         \<and> ((\<exists>arc \<in> set as. length arc \<noteq> 2)
            \<longrightarrow> (\<exists>msg. load_network set_of to_int a ps ts as m =
                    (Inl (ValueError msg),
                     a\<lparr>a_places := set_of ps, a_transitions := set_of ts\<rparr>)))
         \<and> (fst (load_network set_of to_int a ps ts as m) \<noteq> Inr ()
            \<longrightarrow> graph (snd (load_network set_of to_int a ps ts as m)) = graph a)"
proof (intro conjI impI)
  assume h: "(\<forall>arc \<in> set as. length arc = 2) \<and> marking_items to_int m [] = Inr m'
          \<and> ((\<exists>arc \<in> set as. strip (arc ! 0) \<notin> set ps \<union> set ts
                                \<or> strip (arc ! 1) \<notin> set ps \<union> set ts)
              \<or> (\<exists>(p, v) \<in> set m. strip p \<notin> set ps))"
  show "\<exists>msg. load_network set_of to_int a ps ts as m =
                  (Inl (ValueError msg),
                   a\<lparr>a_places := set_of ps, a_transitions := set_of ts,
                     a_arcs := map (\<lambda>arc. (strip (arc ! 0), strip (arc ! 1))) as,
                     marking := m'\<rparr>)"
    by (rule load_validation_failure
          [OF order h [THEN conjunct1] h [THEN conjunct2, THEN conjunct1]
             h [THEN conjunct2, THEN conjunct2]])
next
  assume "\<exists>arc \<in> set as. length arc \<noteq> 2"
  then show "\<exists>msg. load_network set_of to_int a ps ts as m =
                    (Inl (ValueError msg),
                     a\<lparr>a_places := set_of ps, a_transitions := set_of ts\<rparr>)"
    by (rule load_unpack_failure)
next
  assume "fst (load_network set_of to_int a ps ts as m) \<noteq> Inr ()"
  then show "graph (snd (load_network set_of to_int a ps ts as m)) = graph a"
    by (rule load_failure_graph)
qed

theorem load_network_invalid_witness:
  "valid_set_order remdups
   \<and> length [''p1'', ''t9''] = 2
   \<and> marking_items Inr ([] :: (string \<times> int) list) [] = Inr []
   \<and> strip ([''p1'', ''t9''] ! 1) \<notin> set [''p1''] \<union> set [''t1'']
   \<and> (\<exists>msg. load_network remdups Inr scenario_loaded
               [''p1''] [''t1''] [[''p1'', ''t9'']] ([] :: (string \<times> int) list)
             = (Inl (ValueError msg),
                scenario_loaded\<lparr>a_places := [''p1''], a_transitions := [''t1''],
                                a_arcs := [(''p1'', ''t9'')], marking := []\<rparr>))
   \<and> graph (snd (load_network remdups Inr scenario_loaded
               [''p1''] [''t1''] [[''p1'', ''t9'']] ([] :: (string \<times> int) list)))
       = graph scenario_loaded
   \<and> length [''p1''] \<noteq> 2
   \<and> (\<exists>msg. load_network remdups Inr scenario_loaded
               [''p1''] [''t1''] [[''p1'', ''t9''], [''p1'']] ([] :: (string \<times> int) list)
             = (Inl (ValueError msg),
                scenario_loaded\<lparr>a_places := [''p1''], a_transitions := [''t1'']\<rparr>))"
proof -
  let ?r = "load_network remdups Inr scenario_loaded
               [''p1''] [''t1''] [[''p1'', ''t9'']] ([] :: (string \<times> int) list)"
  have p: "\<forall>arc \<in> set [[''p1'', ''t9'']]. length arc = 2" by simp
  have c: "marking_items Inr ([] :: (string \<times> int) list) [] = Inr []" by simp
  have t9: "strip ([''p1'', ''t9''] ! 1) \<notin> set [''p1''] \<union> set [''t1'']"
    by (simp add: strip_sample_names)
  then have b: "(\<exists>arc \<in> set [[''p1'', ''t9'']].
                  strip (arc ! 0) \<notin> set [''p1''] \<union> set [''t1'']
                  \<or> strip (arc ! 1) \<notin> set [''p1''] \<union> set [''t1''])
              \<or> (\<exists>(p, v) \<in> set ([] :: (string \<times> int) list). strip p \<notin> set [''p1''])"
    by simp
  note main = load_network_invalid [OF valid_remdups, where a = scenario_loaded
      and to_int = Inr and ps = "[''p1'']" and ts = "[''t1'']"
      and m = "[] :: (string \<times> int) list"]
  from main [THEN conjunct1, rule_format, OF conjI [OF p conjI [OF c b]]]
  obtain msg where r: "?r =
      (Inl (ValueError msg),
       scenario_loaded\<lparr>a_places := remdups [''p1''], a_transitions := remdups [''t1''],
         a_arcs := map (\<lambda>arc. (strip (arc ! 0), strip (arc ! 1))) [[''p1'', ''t9'']],
         marking := []\<rparr>)"
    by blast
  then have 1: "\<exists>msg. ?r =
      (Inl (ValueError msg),
       scenario_loaded\<lparr>a_places := [''p1''], a_transitions := [''t1''],
                       a_arcs := [(''p1'', ''t9'')], marking := []\<rparr>)"
    by (simp add: strip_sample_names)
  from r have "fst ?r \<noteq> Inr ()" by simp
  from main [THEN conjunct2, THEN conjunct2, rule_format, OF this]
  have 2: "graph (snd ?r) = graph scenario_loaded" .
  have l: "length [''p1''] \<noteq> 2" by simp
  then have "\<exists>arc \<in> set [[''p1'', ''t9''], [''p1'']]. length arc \<noteq> 2" by simp
  from main [THEN conjunct2, THEN conjunct1, rule_format, OF this]
  have 3: "\<exists>msg. load_network remdups Inr scenario_loaded
               [''p1''] [''t1''] [[''p1'', ''t9''], [''p1'']] ([] :: (string \<times> int) list)
             = (Inl (ValueError msg),
                scenario_loaded\<lparr>a_places := [''p1''], a_transitions := [''t1'']\<rparr>)"
    by simp
  have p': "length [''p1'', ''t9''] = 2" by simp
  show ?thesis
    by (intro conjI valid_remdups p' c t9 1 2 l 3)
qed

end
